theory Spec2Isabelle
  imports Complex_Main
begin

section \<open>Python values, exceptions and the file system\<close>

text \<open>
  The program is \<^verbatim>\<open>src/allenopt/commands/allenopt.py\<close>: two command functions,
  \<^verbatim>\<open>optimize_hyperparameters\<close> and \<^verbatim>\<open>export_hyperparameters\<close>, and the two
  argparse registrations. Everything it reads from disk is a JSON document, so the
  values it handles are the ones \<^verbatim>\<open>json.load\<close> produces. A float is kept as the
  token that denotes it: the program never computes with one.
\<close>

datatype json =
    JNull
  | JBool bool
  | JInt int
  | JFloat string
  | JStr string
  | JList "json list"
  | JObj "(string \<times> json) list"

text \<open>
  Exceptions are values. The first eight are raised by the Python of the source itself
  (\<^verbatim>\<open>getattr\<close>, subscripting, \<^verbatim>\<open>**\<close>, \<^verbatim>\<open>open\<close>, \<^verbatim>\<open>os.makedirs\<close>, \<^verbatim>\<open>json.load\<close>); the specification
  files the \<open>AttributeError\<close> of an unknown suggestion method under its
  \<^verbatim>\<open>MalformedSpecError\<close>. The others are the specification's names for what the
  libraries raise.
\<close>

datatype error =
    AttributeError string
  | KeyError string
  | TypeError
  | FileNotFoundError string
  | IsADirectoryError string
  | FileExistsError string
  | NotADirectoryError string
  | JSONDecodeError
  | DuplicateStudyError string
  | NoCompletedTrialError
  | InvalidTransitionError
  | DirectoryConflictError string
  | TrainingError string

definition bind_res :: "error + 'a \<Rightarrow> ('a \<Rightarrow> error + 'b) \<Rightarrow> error + 'b" where
  "bind_res m f = (case m of Inl e \<Rightarrow> Inl e | Inr x \<Rightarrow> f x)"

text \<open>\<^verbatim>\<open>x[k]\<close> for a string key: only a dict can be subscripted by a string.\<close>

fun getitem :: "json \<Rightarrow> string \<Rightarrow> error + json" where
  "getitem (JObj kvs) k = (case map_of kvs k of None \<Rightarrow> Inl (KeyError k) | Some v \<Rightarrow> Inr v)"
| "getitem _ k = Inl TypeError"

fun starts_with :: "string \<Rightarrow> string \<Rightarrow> bool" where
  "starts_with [] s = True"
| "starts_with (c # cs) [] = False"
| "starts_with (c # cs) (d # ds) = (c = d \<and> starts_with cs ds)"

fun contains_str :: "string \<Rightarrow> string \<Rightarrow> bool" where
  "contains_str k [] = (k = [])"
| "contains_str k (d # ds) = (starts_with k (d # ds) \<or> contains_str k ds)"

text \<open>
  \<^verbatim>\<open>k in x\<close> for a string \<open>k\<close>: a key of a dict, an element of a list, a substring
  of a string; the other JSON values are not containers.
\<close>

fun py_in :: "string \<Rightarrow> json \<Rightarrow> error + bool" where
  "py_in k (JObj kvs) = Inr (map_of kvs k \<noteq> None)"
| "py_in k (JList xs) = Inr (JStr k \<in> set xs)"
| "py_in k (JStr s) = Inr (contains_str k s)"
| "py_in k _ = Inl TypeError"

text \<open>\<^verbatim>\<open>for h in x\<close>: the elements of a list, the keys of a dict, the characters of a string.\<close>

fun py_iter :: "json \<Rightarrow> error + json list" where
  "py_iter (JList xs) = Inr xs"
| "py_iter (JObj kvs) = Inr (map (\<lambda>kv. JStr (fst kv)) kvs)"
| "py_iter (JStr s) = Inr (map (\<lambda>c. JStr [c]) s)"
| "py_iter _ = Inl TypeError"

text \<open>\<^verbatim>\<open>f(**x)\<close>: \<open>x\<close> must be a mapping; its items become the keyword arguments.\<close>

fun kwargs_of :: "json \<Rightarrow> error + (string \<times> json) list" where
  "kwargs_of (JObj kvs) = Inr kvs"
| "kwargs_of _ = Inl TypeError"

text \<open>
  \<^verbatim>\<open>getattr(obj, name)\<close> on a table of attributes: the name must be a string, and an
  unknown name raises \<open>AttributeError\<close>.
\<close>

fun getattr :: "(string \<Rightarrow> 'a option) \<Rightarrow> json \<Rightarrow> error + 'a" where
  "getattr tab (JStr n) = (case tab n of None \<Rightarrow> Inl (AttributeError n) | Some a \<Rightarrow> Inr a)"
| "getattr tab _ = Inl TypeError"

text \<open>
  \<^verbatim>\<open>"{}".format(v)\<close>: a string is inserted as it is; for any other value Python
  inserts \<^verbatim>\<open>str(v)\<close>, taken as the parameter \<open>repr\<close>.
\<close>

fun py_format :: "(json \<Rightarrow> string) \<Rightarrow> json \<Rightarrow> string" where
  "py_format repr (JStr s) = s"
| "py_format repr v = repr v"

definition digit_char :: "nat \<Rightarrow> char" where
  "digit_char n = ''0123456789'' ! n"

function string_of_nat :: "nat \<Rightarrow> string" where
  "string_of_nat n =
     (if n < 10 then [digit_char n]
      else string_of_nat (n div 10) @ [digit_char (n mod 10)])"
  by pat_completeness auto
termination
  by (relation "measure id") auto

text \<open>\<^verbatim>\<open>sep.join(parts)\<close>.\<close>

fun join :: "string \<Rightarrow> string list \<Rightarrow> string" where
  "join sep [] = []"
| "join sep [x] = x"
| "join sep (x # y # ys) = x @ sep @ join sep (y # ys)"

text \<open>
  \<^verbatim>\<open>os.path.join(a, b)\<close> of \<^verbatim>\<open>posixpath\<close>: an absolute \<open>b\<close> replaces \<open>a\<close>; an empty
  \<open>a\<close>, or one that ends in a slash, is extended by \<open>b\<close>; otherwise a slash goes between.
\<close>

definition os_path_join :: "string \<Rightarrow> string \<Rightarrow> string" where
  "os_path_join a b =
     (if starts_with ''/'' b then b
      else if a = [] \<or> last a = CHR ''/'' then a @ b
      else a @ ''/'' @ b)"

text \<open>
  The file system: a path names nothing, a directory, or a regular file. A regular
  file holds a JSON document or text that \<^verbatim>\<open>json.load\<close> rejects (\<open>None\<close>).
\<close>

datatype node = Dir | File "json option"

type_synonym filesystem = "string \<Rightarrow> node option"

definition isfile :: "filesystem \<Rightarrow> string \<Rightarrow> bool" where
  "isfile fs p = (case fs p of Some (File c) \<Rightarrow> True | _ \<Rightarrow> False)"

text \<open>\<^verbatim>\<open>json.load(open(p))\<close>.\<close>

definition json_load_open :: "filesystem \<Rightarrow> string \<Rightarrow> error + json" where
  "json_load_open fs p =
     (case fs p of
        None \<Rightarrow> Inl (FileNotFoundError p)
      | Some Dir \<Rightarrow> Inl (IsADirectoryError p)
      | Some (File None) \<Rightarrow> Inl JSONDecodeError
      | Some (File (Some j)) \<Rightarrow> Inr j)"

section \<open>Trials and studies\<close>

text \<open>
  The records of the specification's data model (section 3). The metric is a number;
  the floats of the source are read as rationals, so NaN and the infinities are not
  values of the model.
\<close>

datatype trial_state = RUNNING | COMPLETE | PRUNED | FAILED

datatype direction = Minimize | Maximize

record trial =
  number :: nat
  params :: "(string \<times> json) list"
  intermediate_values :: "(nat \<times> rat) list"
  final_value :: "rat option"
  state :: trial_state

record ('s, 'p) study =
  name :: string
  study_direction :: direction
  sampler :: "'s option"
  pruner :: "'p option"
  trials :: "trial list"

text \<open>
  What the process can see and change: the file system, the studies each storage
  holds (by storage URL and study name), and a clock that counts ticks.
\<close>

record ('s, 'p) world =
  fs :: filesystem
  store :: "string \<times> string \<Rightarrow> ('s, 'p) study option"
  clock :: int

section \<open>The libraries the program calls\<close>

text \<open>
  The program is glue between Optuna, AllenNLP and the Python runtime, none of which
  is part of the repository. What the source looks up in them by name is a parameter:
  \<^item> \<open>pruners\<close>, \<open>samplers\<close>: the classes of \<^verbatim>\<open>optuna.pruners\<close> and
    \<^verbatim>\<open>optuna.samplers\<close>, each a constructor from positional and keyword arguments;
  \<^item> \<open>trial_attrs\<close>: the methods of \<^verbatim>\<open>Trial\<close>, each taking keyword arguments and the
    trial;
  \<^item> \<open>py_repr\<close>: \<^verbatim>\<open>str\<close> on a value that is not a string;
  \<^item> \<open>train\<close>: the training run behind \<^verbatim>\<open>AllenNLPExecutor.run\<close>, given the trial,
    the configuration file, the output directory and the metric name; it returns the
    metric or fails, and time passes;
  \<^item> \<open>training_failures_fatal\<close>: whether a failure of the training run is configured
    to stop the search;
  \<^item> \<open>fresh_name\<close>: the name the library gives a study created without one.
\<close>

record ('s, 'p) lib =
  pruners :: "string \<Rightarrow> (json list \<Rightarrow> (string \<times> json) list \<Rightarrow> error + 'p) option"
  samplers :: "string \<Rightarrow> (json list \<Rightarrow> (string \<times> json) list \<Rightarrow> error + 's) option"
  trial_attrs :: "string \<Rightarrow> ((string \<times> json) list \<Rightarrow> trial \<Rightarrow> error + trial) option"
  py_repr :: "json \<Rightarrow> string"
  train :: "trial \<Rightarrow> string \<Rightarrow> string \<Rightarrow> string \<Rightarrow> int \<Rightarrow> (error + rat) \<times> int"
  training_failures_fatal :: bool
  fresh_name :: "string \<Rightarrow> string"

section \<open>The command line\<close>

text \<open>
  \<^verbatim>\<open>AllenOpt.add_subparser\<close>: what the user typed (\<open>None\<close>: the option was not
  given; for the flag, whether it was given) and the namespace argparse builds from
  it, with the defaults of the source. The positional \<^verbatim>\<open>hparam_path\<close> and the required
  \<^verbatim>\<open>--serialization-dir\<close> are always given. \<^verbatim>\<open>--timeout\<close>, a float of seconds in the
  source, is a whole number of clock ticks here.
\<close>

record cli =
  cli_param_path :: string
  cli_hparam_path :: string
  cli_optuna_param_path :: "string option"
  cli_serialization_dir :: string
  cli_skip_if_exists :: bool
  cli_direction :: "direction option"
  cli_n_trials :: "int option"
  cli_timeout :: "int option"
  cli_study_name :: "string option"
  cli_storage :: "string option"
  cli_metrics :: "string option"

record args =
  param_path :: string
  hparam_path :: string
  optuna_param_path :: "string option"
  serialization_dir :: string
  skip_if_exists :: bool
  direction :: direction
  n_trials :: "int option"
  timeout :: "int option"
  study_name :: "string option"
  storage :: string
  metrics :: string

definition add_subparser :: "cli \<Rightarrow> args" where
  "add_subparser c =
     \<lparr> param_path = cli_param_path c,
       hparam_path = cli_hparam_path c,
       optuna_param_path = cli_optuna_param_path c,
       serialization_dir = cli_serialization_dir c,
       skip_if_exists = cli_skip_if_exists c,
       direction = (case cli_direction c of None \<Rightarrow> Minimize | Some d \<Rightarrow> d),
       n_trials = (case cli_n_trials c of None \<Rightarrow> Some 50 | Some n \<Rightarrow> Some n),
       timeout = cli_timeout c,
       study_name = cli_study_name c,
       storage = (case cli_storage c of None \<Rightarrow> ''sqlite:///allenopt.db'' | Some s \<Rightarrow> s),
       metrics = (case cli_metrics c of None \<Rightarrow> ''best_validation_loss'' | Some m \<Rightarrow> m) \<rparr>"

section \<open>\<^verbatim>\<open>optimize_hyperparameters\<close>, step by step\<close>

text \<open>Lines 52 to 55: the sampler and pruner configuration.\<close>

definition load_optuna_config :: "filesystem \<Rightarrow> string option \<Rightarrow> error + json" where
  "load_optuna_config f p =
     (case p of
        None \<Rightarrow> Inr (JObj [])
      | Some path \<Rightarrow> if isfile f path then json_load_open f path else Inr (JObj []))"

text \<open>
  Lines 57 to 61: the class is looked up by the section's \<^verbatim>\<open>type\<close>, and called
  with the section's \<^verbatim>\<open>keyword\<close> unpacked.
\<close>

definition make_pruner :: "('s, 'p) lib \<Rightarrow> json \<Rightarrow> error + 'p option" where
  "make_pruner L optuna_config =
     bind_res (py_in ''pruner'' optuna_config) (\<lambda>present.
       if present then
         bind_res (getitem optuna_config ''pruner'') (\<lambda>sec.
         bind_res (getitem sec ''type'') (\<lambda>ty.
         bind_res (getattr (pruners L) ty) (\<lambda>pruner_class.
         bind_res (getitem optuna_config ''pruner'') (\<lambda>sec'.
         bind_res (getitem sec' ''keyword'') (\<lambda>kw.
         bind_res (kwargs_of kw) (\<lambda>kwargs.
         bind_res (pruner_class [] kwargs) (\<lambda>p. Inr (Some p))))))))
       else Inr None)"

text \<open>
  Lines 63 to 67: the class is looked up the same way, and called with the section's
  \<^verbatim>\<open>keyword\<close> as its one positional argument.
\<close>

definition make_sampler :: "('s, 'p) lib \<Rightarrow> json \<Rightarrow> error + 's option" where
  "make_sampler L optuna_config =
     bind_res (py_in ''sampler'' optuna_config) (\<lambda>present.
       if present then
         bind_res (getitem optuna_config ''sampler'') (\<lambda>sec.
         bind_res (getitem sec ''type'') (\<lambda>ty.
         bind_res (getattr (samplers L) ty) (\<lambda>sampler_class.
         bind_res (getitem optuna_config ''sampler'') (\<lambda>sec'.
         bind_res (getitem sec' ''keyword'') (\<lambda>kw.
         bind_res (sampler_class [kw] []) (\<lambda>s. Inr (Some s)))))))
       else Inr None)"

text \<open>
  Lines 43 to 46, one turn of the loop: the entry's \<^verbatim>\<open>type\<close>, the method
  \<^verbatim>\<open>suggest_<type>\<close> of the trial, the entry's \<^verbatim>\<open>keyword\<close> unpacked, the call.
\<close>

definition suggest_one :: "('s, 'p) lib \<Rightarrow> json \<Rightarrow> trial \<Rightarrow> error + trial" where
  "suggest_one L hparam t =
     bind_res (getitem hparam ''type'') (\<lambda>attr_type.
     bind_res (getattr (trial_attrs L) (JStr (''suggest_'' @ py_format (py_repr L) attr_type))) (\<lambda>suggest.
     bind_res (getitem hparam ''keyword'') (\<lambda>kw.
     bind_res (kwargs_of kw) (\<lambda>kwargs.
       suggest kwargs t))))"

text \<open>The loop itself: it stops at the first exception.\<close>

fun suggest_all :: "('s, 'p) lib \<Rightarrow> json list \<Rightarrow> trial \<Rightarrow> error + trial" where
  "suggest_all L [] t = Inr t"
| "suggest_all L (h # hs) t =
     (case suggest_one L h t of Inl e \<Rightarrow> Inl e | Inr t' \<Rightarrow> suggest_all L hs t')"

text \<open>
  The loop keeps the trial it has reached when an entry fails: the suggestions made
  before the failure stay on the trial object.
\<close>

fun suggested_before_failure :: "('s, 'p) lib \<Rightarrow> json list \<Rightarrow> trial \<Rightarrow> trial" where
  "suggested_before_failure L [] t = t"
| "suggested_before_failure L (h # hs) t =
     (case suggest_one L h t of Inl e \<Rightarrow> t | Inr t' \<Rightarrow> suggested_before_failure L hs t')"

text \<open>Line 48.\<close>

definition trial_dir :: "string \<Rightarrow> nat \<Rightarrow> string" where
  "trial_dir out_root n = os_path_join out_root (''trial_'' @ string_of_nat n)"

text \<open>
  Line 36, \<^verbatim>\<open>os.makedirs(serialization_dir, exist_ok=True)\<close>, after \<^verbatim>\<open>os.py\<close> and
  \<^verbatim>\<open>posixpath.py\<close>. A path is looked up without its trailing slashes; the empty path
  names nothing, a path of slashes only is the root, and a relative path with no
  directory part lies in the working directory, both of which exist. Apart from that
  paths are compared as written.
\<close>

definition rstrip_slashes :: "string \<Rightarrow> string" where
  "rstrip_slashes p = rev (dropWhile (\<lambda>c. c = CHR ''/'') (rev p))"

text \<open>
  \<^verbatim>\<open>posixpath.split\<close>: the part up to the last slash and the part after it; the first
  part loses its trailing slashes unless it consists of slashes only.
\<close>

definition path_split :: "string \<Rightarrow> string \<times> string" where
  "path_split p =
     (let head = rev (dropWhile (\<lambda>c. c \<noteq> CHR ''/'') (rev p));
          tail = rev (takeWhile (\<lambda>c. c \<noteq> CHR ''/'') (rev p))
      in (if head \<noteq> [] \<and> rstrip_slashes head \<noteq> [] then rstrip_slashes head else head, tail))"

definition path_exists :: "filesystem \<Rightarrow> string \<Rightarrow> bool" where
  "path_exists f p =
     (p \<noteq> [] \<and> (rstrip_slashes p = [] \<or> f (rstrip_slashes p) \<noteq> None))"

definition isdir :: "filesystem \<Rightarrow> string \<Rightarrow> bool" where
  "isdir f p =
     (p \<noteq> [] \<and> (rstrip_slashes p = [] \<or> f (rstrip_slashes p) = Some Dir))"

text \<open>
  \<^verbatim>\<open>os.mkdir\<close>: the path must be new, and its parent an existing directory.
\<close>

definition mkdir :: "filesystem \<Rightarrow> string \<Rightarrow> error + filesystem" where
  "mkdir f p =
     (if p = [] then Inl (FileNotFoundError p)
      else if path_exists f p then Inl (FileExistsError p)
      else
        (let parent = fst (path_split (rstrip_slashes p)) in
         if parent = [] \<or> isdir f parent then Inr (f(rstrip_slashes p \<mapsto> Dir))
         else if path_exists f parent then Inl (NotADirectoryError p)
         else Inl (FileNotFoundError p)))"

text \<open>
  The end of \<^verbatim>\<open>makedirs\<close>: with \<^verbatim>\<open>exist_ok\<close> an error of \<^verbatim>\<open>mkdir\<close> is dropped when the
  path is a directory.
\<close>

definition mkdir_exist_ok :: "filesystem \<Rightarrow> string \<Rightarrow> error + filesystem" where
  "mkdir_exist_ok f p =
     (case mkdir f p of
        Inl e \<Rightarrow> if isdir f p then Inr f else Inl e
      | Inr f' \<Rightarrow> Inr f')"

text \<open>
  The start of \<^verbatim>\<open>makedirs\<close>: the path is split, and split once more when it ends in a
  slash.
\<close>

definition split_twice :: "string \<Rightarrow> string \<times> string" where
  "split_twice p =
     (case path_split p of (head, tail) \<Rightarrow> if tail = [] then path_split head else (head, tail))"

text \<open>
  \<^verbatim>\<open>makedirs\<close> itself: a missing parent is created first, by the same function; a
  \<^verbatim>\<open>FileExistsError\<close> from there is passed over; a path that ends in \<^verbatim>\<open>/.\<close> is done
  once its parent exists.
\<close>

function makedirs_exist_ok :: "filesystem \<Rightarrow> string \<Rightarrow> error + filesystem" where
  "makedirs_exist_ok f p =
     (if fst (split_twice p) \<noteq> [] \<and> snd (split_twice p) \<noteq> [] \<and>
         \<not> path_exists f (fst (split_twice p))
      then
        (case makedirs_exist_ok f (fst (split_twice p)) of
           Inl (FileExistsError x) \<Rightarrow>
             if snd (split_twice p) = ''.'' then Inr f else mkdir_exist_ok f p
         | Inl e \<Rightarrow> Inl e
         | Inr f' \<Rightarrow>
             if snd (split_twice p) = ''.'' then Inr f' else mkdir_exist_ok f' p)
      else mkdir_exist_ok f p)"
  by pat_completeness auto
termination
proof (relation "measure (\<lambda>(f, p). length p)")
  show "wf (measure (\<lambda>(f, p). length p))" by simp
next
  fix f :: filesystem and p :: string
  assume a: "fst (split_twice p) \<noteq> [] \<and> snd (split_twice p) \<noteq> [] \<and>
          \<not> path_exists f (fst (split_twice p))"
  have len: "\<And>q. length (fst (path_split q)) + length (snd (path_split q)) \<le> length q"
  proof -
    fix q :: string
    let ?h = "rev (dropWhile (\<lambda>c. c \<noteq> CHR ''/'') (rev q))"
    let ?t = "rev (takeWhile (\<lambda>c. c \<noteq> CHR ''/'') (rev q))"
    have "length ?h + length ?t = length (rev q)"
      using takeWhile_dropWhile_id [of "\<lambda>c. c \<noteq> CHR ''/''" "rev q"]
      by (metis add.commute length_append length_rev)
    moreover have "length (rstrip_slashes ?h) \<le> length ?h"
      by (simp add: rstrip_slashes_def length_dropWhile_le)
    ultimately show "length (fst (path_split q)) + length (snd (path_split q)) \<le> length q"
      by (auto simp: path_split_def Let_def)
  qed
  have "length (fst (split_twice p)) < length p"
  proof (cases "snd (path_split p) = []")
    case True
    then have s: "split_twice p = path_split (fst (path_split p))"
      by (cases "path_split p") (simp add: split_twice_def)
    have "length (fst (split_twice p)) + length (snd (split_twice p))
            \<le> length (fst (path_split p))"
      unfolding s by (rule len)
    moreover have "length (fst (path_split p)) \<le> length p"
      using len [of p] by simp
    moreover have "0 < length (snd (split_twice p))" using a by simp
    ultimately show ?thesis by linarith
  next
    case False
    then have s: "split_twice p = path_split p"
      by (cases "path_split p") (simp add: split_twice_def)
    have "length (fst (split_twice p)) + length (snd (split_twice p)) \<le> length p"
      unfolding s by (rule len)
    moreover have "0 < length (snd (split_twice p))" using a by simp
    ultimately show ?thesis by linarith
  qed
  then show "((f, fst (split_twice p)), (f, p)) \<in> measure (\<lambda>(f, p). length p)" by simp
qed

text \<open>
  Modelled from the spec: \<^verbatim>\<open>AllenNLPExecutor\<close> (lines 49 and 50 construct and run
  it) is not in the repository. Section 4.5: the Executor creates the isolated output
  directory, which must not exist yet, and invokes the training collaborator. The
  overlay of the trial's parameters on the base configuration happens inside \<open>train\<close>.
\<close>

definition executor_run ::
  "('s, 'p) lib \<Rightarrow> trial \<Rightarrow> string \<Rightarrow> string \<Rightarrow> string \<Rightarrow> ('s, 'p) world
    \<Rightarrow> (error + rat) \<times> ('s, 'p) world" where
  "executor_run L t config_file dir metric w =
     (if fs w dir \<noteq> None then (Inl (DirectoryConflictError dir), w)
      else case train L t config_file dir metric (clock w) of
             (r, c) \<Rightarrow> (r, w\<lparr>fs := (fs w)(dir \<mapsto> Dir), clock := c\<rparr>))"

text \<open>
  Lines 38 to 50, \<^verbatim>\<open>_objective\<close>: the descriptor file is opened and parsed, every
  entry is suggested to the trial, and the Executor runs in the trial's directory.
  The result carries the trial as the call leaves it.
\<close>

definition objective ::
  "('s, 'p) lib \<Rightarrow> args \<Rightarrow> trial \<Rightarrow> ('s, 'p) world
    \<Rightarrow> (error + rat) \<times> trial \<times> ('s, 'p) world" where
  "objective L a t w =
     (case json_load_open (fs w) (hparam_path a) of
        Inl e \<Rightarrow> (Inl e, t, w)
      | Inr doc \<Rightarrow>
          (case py_iter doc of
             Inl e \<Rightarrow> (Inl e, t, w)
           | Inr hs \<Rightarrow>
               (case suggest_all L hs t of
                  Inl e \<Rightarrow> (Inl e, suggested_before_failure L hs t, w)
                | Inr t' \<Rightarrow>
                    (case executor_run L t' (param_path a)
                            (trial_dir (serialization_dir a) (number t')) (metrics a) w of
                       (r, w') \<Rightarrow> (r, t', w')))))"

section \<open>The study, the search loop and the best trial\<close>

text \<open>
  Modelled from the spec: \<^verbatim>\<open>optuna.create_study\<close> (lines 69 to 76 call it) is not
  in the repository. Section 4.4, \<^verbatim>\<open>create_or_load\<close>: a study of that name in the
  storage is a \<^verbatim>\<open>DuplicateStudyError\<close> unless \<^verbatim>\<open>load_if_exists\<close>, in which case it
  is loaded with the given sampler and pruner attached; otherwise a new, empty study
  is recorded.
\<close>

definition create_study ::
  "('s, 'p) lib \<Rightarrow> string option \<Rightarrow> direction \<Rightarrow> string \<Rightarrow> 'p option \<Rightarrow> 's option \<Rightarrow> bool
    \<Rightarrow> ('s, 'p) world \<Rightarrow> (error + ('s, 'p) study) \<times> ('s, 'p) world" where
  "create_study L nm d url pr sm load_if_exists w =
     (let n = (case nm of None \<Rightarrow> fresh_name L url | Some n' \<Rightarrow> n') in
      case store w (url, n) of
        Some s \<Rightarrow>
          if load_if_exists then (Inr (s\<lparr>sampler := sm, pruner := pr\<rparr>), w)
          else (Inl (DuplicateStudyError n), w)
      | None \<Rightarrow>
          (let s = \<lparr>name = n, study_direction = d, sampler = sm, pruner = pr, trials = []\<rparr>
           in (Inr s, w\<lparr>store := (store w)((url, n) \<mapsto> s)\<rparr>)))"

text \<open>
  Modelled from the spec: \<^verbatim>\<open>Study.ask\<close> and \<^verbatim>\<open>Study.tell\<close> of section 4.4 (inside
  \<^verbatim>\<open>study.optimize\<close>, not in the repository). \<open>ask\<close> allocates the id after the
  highest one recorded and appends a RUNNING record; \<open>tell\<close> moves a RUNNING record
  to its outcome and fails with \<^verbatim>\<open>InvalidTransitionError\<close> otherwise.
\<close>

definition next_id :: "trial list \<Rightarrow> nat" where
  "next_id ts = (if ts = [] then 0 else Suc (fold max (map number ts) 0))"

definition ask :: "('s, 'p) study \<Rightarrow> trial \<times> ('s, 'p) study" where
  "ask s =
     (let t = \<lparr>number = next_id (trials s), params = [], intermediate_values = [],
                final_value = None, state = RUNNING\<rparr>
      in (t, s\<lparr>trials := trials s @ [t]\<rparr>))"

definition tell ::
  "('s, 'p) study \<Rightarrow> trial \<Rightarrow> rat option \<Rightarrow> trial_state \<Rightarrow> error + ('s, 'p) study" where
  "tell s t v outcome =
     (case find (\<lambda>u. number u = number t) (trials s) of
        None \<Rightarrow> Inl InvalidTransitionError
      | Some u \<Rightarrow>
          if state u \<noteq> RUNNING then Inl InvalidTransitionError
          else Inr (s\<lparr>trials :=
                 map (\<lambda>u. if number u = number t then t\<lparr>final_value := v, state := outcome\<rparr> else u)
                   (trials s)\<rparr>))"

text \<open>
  Modelled from the spec: \<^verbatim>\<open>study.optimize\<close> (line 82 calls it) is not in the
  repository. Section 4.6: the loop ends when a configured budget is used up, the
  number of trials or the time since the start; each turn asks for a trial, runs the
  objective on it and tells the outcome. A failed trial is recorded as FAILED and ends
  the search when the failure is fatal. With neither budget and no fatal failure the
  loop does not return, so its result is an option. Intermediate reports and pruning
  happen inside the training run and are not part of this model.
\<close>

text \<open>
  Modelled from the spec: which failures end the search (sections 4.5 and 7). A
  \<^verbatim>\<open>DirectoryConflictError\<close> is fatal for its trial only; a failure of the training
  run is recorded and the search goes on, unless it is configured to be fatal; a bad
  descriptor (\<^verbatim>\<open>MalformedSpecError\<close>: here the \<open>AttributeError\<close>, \<open>KeyError\<close> and
  \<open>TypeError\<close> of lines 43 to 46) and every other error abort the run.
\<close>

fun fatal :: "('s, 'p) lib \<Rightarrow> error \<Rightarrow> bool" where
  "fatal L (DirectoryConflictError d) = False"
| "fatal L (TrainingError m) = training_failures_fatal L"
| "fatal L e = True"

definition budget_spent :: "int option \<Rightarrow> int option \<Rightarrow> int \<Rightarrow> int \<Rightarrow> int \<Rightarrow> bool" where
  "budget_spent n tmo start i now =
     ((case n of None \<Rightarrow> False | Some k \<Rightarrow> k \<le> i) \<or>
      (case tmo of None \<Rightarrow> False | Some d \<Rightarrow> d \<le> now - start))"

partial_function (option) optimize ::
  "('s, 'p) lib \<Rightarrow> (trial \<Rightarrow> ('s, 'p) world \<Rightarrow> (error + rat) \<times> trial \<times> ('s, 'p) world)
    \<Rightarrow> int option \<Rightarrow> int option \<Rightarrow> int \<Rightarrow> int \<Rightarrow> ('s, 'p) study \<Rightarrow> ('s, 'p) world
    \<Rightarrow> ((error + unit) \<times> ('s, 'p) study \<times> ('s, 'p) world) option" where
  "optimize L obj n tmo start i s w =
     (if budget_spent n tmo start i (clock w) then Some (Inr (), s, w)
      else
        (case ask s of (t, s1) \<Rightarrow>
          (case obj t w of (r, t', w') \<Rightarrow>
            (case r of
               Inr v \<Rightarrow>
                 (case tell s1 t' (Some v) COMPLETE of
                    Inl e \<Rightarrow> Some (Inl e, s1, w')
                  | Inr s2 \<Rightarrow> optimize L obj n tmo start (i + 1) s2 w')
             | Inl e \<Rightarrow>
                 (case tell s1 t' None FAILED of
                    Inl e' \<Rightarrow> Some (Inl e', s1, w')
                  | Inr s2 \<Rightarrow>
                      if fatal L e then Some (Inl e, s2, w')
                      else optimize L obj n tmo start (i + 1) s2 w')))))"

text \<open>
  Modelled from the spec: the study's authoritative state lives in the storage
  (section 3), so what the loop leaves is written back under the study's name.
\<close>

definition save :: "string \<Rightarrow> ('s, 'p) study \<Rightarrow> ('s, 'p) world \<Rightarrow> ('s, 'p) world" where
  "save url s w = w\<lparr>store := (store w)((url, name s) \<mapsto> s)\<rparr>"



text \<open>
  \<^verbatim>\<open>optimize_hyperparameters\<close> with the library as the specification describes it:
  the same steps, written out with \<open>create_study\<close> and the loop above (the lemma
  \<open>optimize_hyperparameters_instance\<close> below says so).
\<close>

definition optimize_hyperparameters ::
  "('s, 'p) lib \<Rightarrow> args \<Rightarrow> ('s, 'p) world \<Rightarrow> ((error + unit) \<times> ('s, 'p) world) option" where
  "optimize_hyperparameters L a w =
     (case makedirs_exist_ok (fs w) (serialization_dir a) of
        Inl e \<Rightarrow> Some (Inl e, w)
      | Inr f1 \<Rightarrow>
          (case load_optuna_config f1 (optuna_param_path a) of
             Inl e \<Rightarrow> Some (Inl e, w\<lparr>fs := f1\<rparr>)
           | Inr optuna_config \<Rightarrow>
               (case make_pruner L optuna_config of
                  Inl e \<Rightarrow> Some (Inl e, w\<lparr>fs := f1\<rparr>)
                | Inr pr \<Rightarrow>
                    (case make_sampler L optuna_config of
                       Inl e \<Rightarrow> Some (Inl e, w\<lparr>fs := f1\<rparr>)
                     | Inr sm \<Rightarrow>
                         (case create_study L (study_name a) (direction a) (storage a) pr sm
                                 (skip_if_exists a) (w\<lparr>fs := f1\<rparr>) of
                            (Inl e, w2) \<Rightarrow> Some (Inl e, w2)
                          | (Inr s, w2) \<Rightarrow>
                              (case optimize L (objective L a) (n_trials a) (timeout a)
                                      (clock w2) 0 s w2 of
                                 None \<Rightarrow> None
                               | Some (r, s', w3) \<Rightarrow> Some (r, save (storage a) s' w3)))))))"

text \<open>
  Modelled from the spec: \<^verbatim>\<open>Study.best\<close> (behind \<^verbatim>\<open>study.best_params\<close>, line 89)
  is not in the repository. Sections 3 and 4.4: the COMPLETE trial with the extremal
  final value for the study's direction, the earliest one among equals, and
  \<^verbatim>\<open>NoCompletedTrialError\<close> when no trial is COMPLETE.
\<close>

fun completed :: "trial list \<Rightarrow> (trial \<times> rat) list" where
  "completed [] = []"
| "completed (t # ts) =
     (case final_value t of
        Some v \<Rightarrow> if state t = COMPLETE then (t, v) # completed ts else completed ts
      | None \<Rightarrow> completed ts)"

fun better :: "direction \<Rightarrow> rat \<Rightarrow> rat \<Rightarrow> bool" where
  "better Minimize a b = (a < b)"
| "better Maximize a b = (b < a)"

fun best_of :: "direction \<Rightarrow> trial \<times> rat \<Rightarrow> (trial \<times> rat) list \<Rightarrow> trial \<times> rat" where
  "best_of d b [] = b"
| "best_of d b (c # cs) = best_of d (if better d (snd c) (snd b) then c else b) cs"

definition best :: "('s, 'p) study \<Rightarrow> error + trial" where
  "best s =
     (case completed (trials s) of
        [] \<Rightarrow> Inl NoCompletedTrialError
      | c # cs \<Rightarrow> Inr (fst (best_of (study_direction s) c cs)))"

text \<open>
  Modelled from the spec: \<^verbatim>\<open>optuna.load_study\<close> (line 88 calls it) is not in the
  repository. A persisted study is found in its storage by its name.
\<close>

definition load_study :: "string option \<Rightarrow> string \<Rightarrow> ('s, 'p) world \<Rightarrow> error + ('s, 'p) study" where
  "load_study nm url w =
     (case nm of
        None \<Rightarrow> Inl (KeyError [])
      | Some n \<Rightarrow> (case store w (url, n) of None \<Rightarrow> Inl (KeyError n) | Some s \<Rightarrow> Inr s))"

text \<open>
  Lines 85 to 89, \<^verbatim>\<open>export_hyperparameters\<close>: the result is the line it prints,
  each parameter of the best trial as \<^verbatim>\<open>key=value\<close>, joined by spaces.
\<close>

definition key_value :: "('s, 'p) lib \<Rightarrow> string \<times> json \<Rightarrow> string" where
  "key_value L kv = fst kv @ ''='' @ py_format (py_repr L) (snd kv)"

definition export_hyperparameters ::
  "('s, 'p) lib \<Rightarrow> string option \<Rightarrow> string \<Rightarrow> ('s, 'p) world \<Rightarrow> error + string" where
  "export_hyperparameters L nm url w =
     bind_res (load_study nm url w) (\<lambda>study.
     bind_res (best study) (\<lambda>b.
       Inr (join '' '' (map (key_value L) (params b)))))"

section \<open>The specification's reading of the suggestion loop\<close>

text \<open>
  The specification's words for lines 43 to 46, to be compared with \<open>suggest_all\<close>:
  every entry of the list, in list order, is handed to the suggestion method its
  \<^verbatim>\<open>type\<close> names, with its \<^verbatim>\<open>keyword\<close> mapping as the keyword arguments; the
  trial each call leaves is the one the next call starts from.
\<close>

inductive processed :: "('s, 'p) lib \<Rightarrow> json list \<Rightarrow> trial \<Rightarrow> trial \<Rightarrow> bool" where
  processed_nil: "processed L [] t t"
| processed_cons: "getitem h ''type'' = Inr ty \<Longrightarrow>
         trial_attrs L (''suggest_'' @ py_format (py_repr L) ty) = Some suggest \<Longrightarrow>
         getitem h ''keyword'' = Inr (JObj kwargs) \<Longrightarrow>
         suggest kwargs t = Inr t1 \<Longrightarrow>
         processed L hs t1 t' \<Longrightarrow>
         processed L (h # hs) t t'"

text \<open>
  What the claim about sampled values needs of the library: a suggestion method that
  returns has recorded a value under the \<^verbatim>\<open>name\<close> it was given, and has kept the
  values recorded before.
\<close>

definition records_names :: "('s, 'p) lib \<Rightarrow> bool" where
  "records_names L =
     (\<forall>n suggest kwargs t t'.
        trial_attrs L n = Some suggest \<longrightarrow> suggest kwargs t = Inr t' \<longrightarrow>
          (\<exists>nm. map_of kwargs ''name'' = Some (JStr nm) \<and> nm \<in> fst ` set (params t')) \<and>
          fst ` set (params t) \<subseteq> fst ` set (params t'))"

section \<open>Example inputs\<close>

text \<open>
  A small library and a small run, used to evaluate the definitions: one pruner class,
  one sampler class, each returning its name and the arguments it was called with; one
  suggestion method, which records the lower bound under the parameter's name; a
  training run that returns 1 and takes one tick.
\<close>

definition suggest_low :: "(string \<times> json) list \<Rightarrow> trial \<Rightarrow> error + trial" where
  "suggest_low kw t =
     (case map_of kw ''name'' of
        Some (JStr n) \<Rightarrow>
          (case map_of kw ''low'' of
             Some v \<Rightarrow> Inr (t\<lparr>params := params t @ [(n, v)]\<rparr>)
           | None \<Rightarrow> Inl TypeError)
      | _ \<Rightarrow> Inl TypeError)"

type_synonym object = "string \<times> json list \<times> (string \<times> json) list"

definition example_lib :: "(object, object) lib" where
  "example_lib =
     \<lparr> pruners = (\<lambda>n. if n = ''MedianPruner'' then Some (\<lambda>a k. Inr (n, a, k)) else None),
       samplers = (\<lambda>n. if n = ''RandomSampler'' then Some (\<lambda>a k. Inr (n, a, k)) else None),
       trial_attrs = (\<lambda>n. if n = ''suggest_uniform'' then Some suggest_low else None),
       py_repr = (\<lambda>v. case v of JFloat s \<Rightarrow> s | _ \<Rightarrow> ''?''),
       train = (\<lambda>t c d m now. (Inr 1, now + 1)),
       training_failures_fatal = False,
       fresh_name = (\<lambda>url. ''no-name'') \<rparr>"

definition lr_entry :: json where
  "lr_entry = JObj [(''type'', JStr ''uniform''),
                    (''keyword'', JObj [(''name'', JStr ''lr''), (''low'', JFloat ''0.001''),
                                        (''high'', JFloat ''0.1'')])]"

definition dropout_entry :: json where
  "dropout_entry = JObj [(''type'', JStr ''uniform''),
                         (''keyword'', JObj [(''name'', JStr ''dropout''), (''low'', JFloat ''0.1''),
                                             (''high'', JFloat ''0.5'')])]"

definition momentum_entry :: json where
  "momentum_entry = JObj [(''type'', JStr ''uniform''),
                          (''keyword'', JObj [(''name'', JStr ''momentum''), (''low'', JFloat ''0.9''),
                                              (''high'', JFloat ''0.99'')])]"


definition example_args :: args where
  "example_args =
     add_subparser
       \<lparr> cli_param_path = ''model.jsonnet'', cli_hparam_path = ''hparams.json'',
         cli_optuna_param_path = Some ''optuna.json'', cli_serialization_dir = ''out'',
         cli_skip_if_exists = False, cli_direction = None, cli_n_trials = Some 1,
         cli_timeout = None, cli_study_name = Some ''demo'', cli_storage = None,
         cli_metrics = None \<rparr>"

definition example_world :: "json \<Rightarrow> (object, object) world" where
  "example_world hp = \<lparr> fs = [''hparams.json'' \<mapsto> File (Some hp)], store = Map.empty, clock = 0 \<rparr>"

definition new_trial :: "nat \<Rightarrow> trial" where
  "new_trial n = \<lparr>number = n, params = [], intermediate_values = [], final_value = None,
                  state = RUNNING\<rparr>"

definition tied_study :: "(object, object) study" where
  "tied_study =
     \<lparr> name = ''demo'', study_direction = Minimize, sampler = None, pruner = None,
       trials =
         [ \<lparr>number = 0, params = [(''lr'', JFloat ''0.05'')], intermediate_values = [],
             final_value = Some 5, state = COMPLETE\<rparr>,
           \<lparr>number = 1,
             params = [(''lr'', JFloat ''0.03''), (''dropout'', JFloat ''0.5''),
                       (''optimizer'', JStr ''adam'')],
             intermediate_values = [], final_value = Some 3, state = COMPLETE\<rparr>,
           \<lparr>number = 2, params = [(''lr'', JFloat ''0.02'')], intermediate_values = [],
             final_value = Some 3, state = FAILED\<rparr>,
           \<lparr>number = 3, params = [(''lr'', JFloat ''0.04'')], intermediate_values = [],
             final_value = Some 3, state = COMPLETE\<rparr> ] \<rparr>"

definition both_sections :: json where
  "both_sections =
     JObj [(''pruner'', JObj [(''type'', JStr ''MedianPruner''),
                              (''keyword'', JObj [(''n_startup_trials'', JInt 5)])]),
           (''sampler'', JObj [(''type'', JStr ''RandomSampler''),
                               (''keyword'', JObj [(''seed'', JInt 1)])])]"

section \<open>Auxiliary facts\<close>

declare string_of_nat.simps [simp del]

declare makedirs_exist_ok.simps [simp del]

lemma mkdir_isfile:
  assumes "mkdir f p = Inr f1"
  shows "isfile f1 q = isfile f q"
proof -
  from assms have new: "\<not> path_exists f p" and ne: "p \<noteq> []"
    and f1: "f1 = f(rstrip_slashes p \<mapsto> Dir)"
    by (auto simp: mkdir_def Let_def split: if_splits)
  from new ne have "f (rstrip_slashes p) = None" by (simp add: path_exists_def)
  then show ?thesis by (simp add: f1 isfile_def)
qed

lemma mkdir_exist_ok_isfile:
  assumes "mkdir_exist_ok f p = Inr f1"
  shows "isfile f1 q = isfile f q"
proof (cases "mkdir f p")
  case (Inl e)
  with assms have "f1 = f" by (simp add: mkdir_exist_ok_def split: if_splits)
  then show ?thesis by simp
next
  case (Inr f')
  with assms have "mkdir f p = Inr f1" by (simp add: mkdir_exist_ok_def)
  then show ?thesis by (rule mkdir_isfile)
qed

lemma isfile_makedirs:
  "makedirs_exist_ok f p = Inr f1 \<Longrightarrow> isfile f1 q = isfile f q"
proof (induction f p arbitrary: f1 rule: makedirs_exist_ok.induct)
  case (1 f p)
  let ?c = "fst (split_twice p) \<noteq> [] \<and> snd (split_twice p) \<noteq> [] \<and>
            \<not> path_exists f (fst (split_twice p))"
  show ?case
  proof (cases ?c)
    case False
    with "1.prems" have "mkdir_exist_ok f p = Inr f1"
      by (subst (asm) makedirs_exist_ok.simps) simp
    then show ?thesis by (rule mkdir_exist_ok_isfile)
  next
    case True
    show ?thesis
    proof (cases "makedirs_exist_ok f (fst (split_twice p))")
      case (Inl e)
      with True "1.prems" have "f1 = f \<or> mkdir_exist_ok f p = Inr f1"
        by (subst (asm) makedirs_exist_ok.simps) (simp split: error.splits if_splits)
      then show ?thesis using mkdir_exist_ok_isfile by blast
    next
      case (Inr f')
      from True Inr have ih: "isfile f' q = isfile f q" by (rule "1.IH")
      from True Inr "1.prems" have "f1 = f' \<or> mkdir_exist_ok f' p = Inr f1"
        by (subst (asm) makedirs_exist_ok.simps) (simp split: if_splits)
      then show ?thesis using mkdir_exist_ok_isfile ih by metis
    qed
  qed
qed

lemma makedirs_plain_name:
  assumes "p \<noteq> []" and "CHR ''/'' \<notin> set p" and "f p = None"
  shows "makedirs_exist_ok f p = Inr (f(p \<mapsto> Dir))"
proof -
  have tw: "takeWhile (\<lambda>c. c \<noteq> CHR ''/'') (rev p) = rev p"
    using assms(2) by (auto simp: takeWhile_eq_all_conv)
  have dw: "dropWhile (\<lambda>c. c \<noteq> CHR ''/'') (rev p) = []"
    using assms(2) by (auto simp: dropWhile_eq_Nil_conv)
  have sp: "path_split p = ([], p)" by (simp add: path_split_def tw dw)
  have st: "split_twice p = ([], p)" using assms(1) by (simp add: split_twice_def sp)
  have "last p \<noteq> CHR ''/''" using assms(1,2) last_in_set by metis
  then have "hd (rev p) \<noteq> CHR ''/''" using assms(1) by (simp add: hd_rev)
  then have "dropWhile (\<lambda>c. c = CHR ''/'') (rev p) = rev p"
    using assms(1) by (cases "rev p") simp_all
  then have rs: "rstrip_slashes p = p" by (simp add: rstrip_slashes_def)
  have "mkdir f p = Inr (f(p \<mapsto> Dir))"
    using assms(1,3) by (simp add: mkdir_def path_exists_def rs sp)
  then have "mkdir_exist_ok f p = Inr (f(p \<mapsto> Dir))" by (simp add: mkdir_exist_ok_def)
  then show ?thesis by (subst makedirs_exist_ok.simps) (simp add: st)
qed

lemma make_pruner_empty: "make_pruner L (JObj []) = Inr None"
  by (simp add: make_pruner_def bind_res_def)

lemma make_sampler_empty: "make_sampler L (JObj []) = Inr None"
  by (simp add: make_sampler_def bind_res_def)

lemma kwargs_of_Inr: "kwargs_of j = Inr kwargs \<longleftrightarrow> j = JObj kwargs"
  by (cases j) auto

lemma suggest_one_InrI:
  assumes "getitem h ''type'' = Inr ty"
      and "trial_attrs L (''suggest_'' @ py_format (py_repr L) ty) = Some suggest"
      and "getitem h ''keyword'' = Inr (JObj kwargs)"
      and "suggest kwargs t = Inr t1"
  shows "suggest_one L h t = Inr t1"
  using assms by (simp add: suggest_one_def bind_res_def)

lemma suggest_one_InrD:
  assumes ok: "suggest_one L h t = Inr t1"
  shows "\<exists>ty suggest kwargs.
        getitem h ''type'' = Inr ty \<and>
        trial_attrs L (''suggest_'' @ py_format (py_repr L) ty) = Some suggest \<and>
        getitem h ''keyword'' = Inr (JObj kwargs) \<and>
        suggest kwargs t = Inr t1"
proof (cases "getitem h ''type''")
  case (Inl e)
  with ok show ?thesis by (simp add: suggest_one_def bind_res_def)
next
  case ty: (Inr ty)
  show ?thesis
  proof (cases "trial_attrs L (''suggest_'' @ py_format (py_repr L) ty)")
    case None
    with ty ok show ?thesis by (simp add: suggest_one_def bind_res_def)
  next
    case m: (Some suggest)
    show ?thesis
    proof (cases "getitem h ''keyword''")
      case (Inl e)
      with ty m ok show ?thesis by (simp add: suggest_one_def bind_res_def)
    next
      case kw: (Inr kw)
      show ?thesis
      proof (cases "kwargs_of kw")
        case (Inl e)
        with ty m kw ok show ?thesis by (simp add: suggest_one_def bind_res_def)
      next
        case (Inr kwargs)
        then have j: "kw = JObj kwargs" by (simp add: kwargs_of_Inr)
        from ty m kw Inr ok have "suggest kwargs t = Inr t1"
          by (simp add: suggest_one_def bind_res_def)
        with ty m kw j show ?thesis by simp
      qed
    qed
  qed
qed

lemma suggest_all_ConsD:
  assumes "suggest_all L (h # hs) t = Inr t'"
  obtains t1 where "suggest_one L h t = Inr t1" and "suggest_all L hs t1 = Inr t'"
  using assms by (cases "suggest_one L h t") simp_all

lemma suggest_all_processed:
  "suggest_all L hs t = Inr t' \<Longrightarrow> processed L hs t t'"
proof (induction hs arbitrary: t)
  case Nil
  then show ?case by (simp add: processed_nil)
next
  case (Cons h hs)
  from Cons.prems obtain t1 where
    one: "suggest_one L h t = Inr t1" and rest: "suggest_all L hs t1 = Inr t'"
    by (rule suggest_all_ConsD)
  from suggest_one_InrD [OF one] obtain ty suggest kwargs where
    a: "getitem h ''type'' = Inr ty"
    and b: "trial_attrs L (''suggest_'' @ py_format (py_repr L) ty) = Some suggest"
    and c: "getitem h ''keyword'' = Inr (JObj kwargs)"
    and d: "suggest kwargs t = Inr t1"
    by blast
  from a b c d Cons.IH [OF rest] show ?case by (rule processed_cons)
qed

lemma processed_suggest_all:
  "processed L hs t t' \<Longrightarrow> suggest_all L hs t = Inr t'"
proof (induction rule: processed.induct)
  case (processed_nil L t)
  show ?case by simp
next
  case (processed_cons h ty L suggest kwargs t t1 hs t')
  have "suggest_one L h t = Inr t1"
    using processed_cons.hyps(1-4) by (rule suggest_one_InrI)
  with processed_cons.IH show ?case by simp
qed

lemma records_namesD:
  assumes "records_names L" and "trial_attrs L n = Some suggest" and "suggest kwargs t = Inr t'"
  shows "\<exists>nm. map_of kwargs ''name'' = Some (JStr nm) \<and> nm \<in> fst ` set (params t')"
    and "fst ` set (params t) \<subseteq> fst ` set (params t')"
  using assms(1) [unfolded records_names_def, rule_format, OF assms(2,3)] by simp_all

lemma suggest_all_keeps_names:
  "records_names L \<Longrightarrow> suggest_all L hs t = Inr t' \<Longrightarrow>
     fst ` set (params t) \<subseteq> fst ` set (params t')"
proof (induction hs arbitrary: t)
  case Nil
  then show ?case by simp
next
  case (Cons h hs)
  from Cons.prems(2) obtain t1 where
    one: "suggest_one L h t = Inr t1" and rest: "suggest_all L hs t1 = Inr t'"
    by (rule suggest_all_ConsD)
  from suggest_one_InrD [OF one] obtain ty suggest kwargs where
    b: "trial_attrs L (''suggest_'' @ py_format (py_repr L) ty) = Some suggest"
    and d: "suggest kwargs t = Inr t1"
    by blast
  have "fst ` set (params t) \<subseteq> fst ` set (params t1)"
    using Cons.prems(1) b d by (rule records_namesD(2))
  moreover have "fst ` set (params t1) \<subseteq> fst ` set (params t')"
    using Cons.prems(1) rest by (rule Cons.IH)
  ultimately show ?case by (rule subset_trans)
qed

lemma suggest_all_names:
  "records_names L \<Longrightarrow> suggest_all L hs t = Inr t' \<Longrightarrow> h \<in> set hs \<Longrightarrow>
     \<exists>kwargs nm. getitem h ''keyword'' = Inr (JObj kwargs) \<and>
        map_of kwargs ''name'' = Some (JStr nm) \<and> nm \<in> fst ` set (params t')"
proof (induction hs arbitrary: t)
  case Nil
  then show ?case by simp
next
  case (Cons x hs)
  from Cons.prems(2) obtain t1 where
    one: "suggest_one L x t = Inr t1" and rest: "suggest_all L hs t1 = Inr t'"
    by (rule suggest_all_ConsD)
  show ?case
  proof (cases "h = x")
    case True
    from suggest_one_InrD [OF one] obtain ty suggest kwargs where
      k: "getitem x ''keyword'' = Inr (JObj kwargs)"
      and m: "trial_attrs L (''suggest_'' @ py_format (py_repr L) ty) = Some suggest"
      and c: "suggest kwargs t = Inr t1"
      by blast
    from records_namesD(1) [OF Cons.prems(1) m c] obtain nm where
      nm: "map_of kwargs ''name'' = Some (JStr nm)" and mem: "nm \<in> fst ` set (params t1)"
      by blast
    have "fst ` set (params t1) \<subseteq> fst ` set (params t')"
      using Cons.prems(1) rest by (rule suggest_all_keeps_names)
    with mem have "nm \<in> fst ` set (params t')" by (rule subsetD [rotated])
    with nm k True show ?thesis by simp
  next
    case False
    with Cons.prems(3) have "h \<in> set hs" by simp
    with Cons.prems(1) rest show ?thesis by (rule Cons.IH)
  qed
qed










lemma optimize_stop:
  "budget_spent n tmo start i (clock w) \<Longrightarrow> optimize L obj n tmo start i s w = Some (Inr (), s, w)"
  by (subst optimize.simps) simp


lemma optimize_terminates:
  "\<exists>r. optimize L obj (Some n) tmo start i s w = Some r"
proof (induction "nat (n - i)" arbitrary: i s w)
  case 0
  then have "budget_spent (Some n) tmo start i (clock w)" by (simp add: budget_spent_def)
  then show ?case by (simp add: optimize_stop)
next
  case (Suc k)
  then have k: "\<And>s w. \<exists>r. optimize L obj (Some n) tmo start (i + 1) s w = Some r"
    by simp
  show ?case
  proof (cases "budget_spent (Some n) tmo start i (clock w)")
    case True
    then show ?thesis by (simp add: optimize_stop)
  next
    case False
    obtain t s1 where a: "ask s = (t, s1)" by (cases "ask s")
    obtain r t' w' where o: "obj t w = (r, t', w')" by (cases "obj t w")
    show ?thesis
    proof (cases r)
      case (Inl e)
      show ?thesis
      proof (cases "tell s1 t' None FAILED")
        case tl: (Inl e')
        with False a o Inl show ?thesis by (subst optimize.simps) simp
      next
        case tr: (Inr s2)
        with False a o Inl k [of s2 w'] show ?thesis
          by (subst optimize.simps) simp
      qed
    next
      case (Inr v)
      show ?thesis
      proof (cases "tell s1 t' (Some v) COMPLETE")
        case tl: (Inl e')
        with False a o Inr show ?thesis by (subst optimize.simps) simp
      next
        case tr: (Inr s2)
        with False a o Inr k [of s2 w'] show ?thesis
          by (subst optimize.simps) simp
      qed
    qed
  qed
qed


lemma set_completed:
  "(t, v) \<in> set (completed ts) \<longleftrightarrow> t \<in> set ts \<and> state t = COMPLETE \<and> final_value t = Some v"
  by (induction ts) (auto split: option.splits)

lemma completed_sorted:
  "sorted_wrt (<) (map number ts) \<Longrightarrow> sorted_wrt (<) (map (\<lambda>c. number (fst c)) (completed ts))"
proof (induction ts)
  case Nil
  then show ?case by simp
next
  case (Cons t ts)
  then have tl: "sorted_wrt (<) (map (\<lambda>c. number (fst c)) (completed ts))" by simp
  have lt: "\<And>c. c \<in> set (completed ts) \<Longrightarrow> number t < number (fst c)"
  proof -
    fix c assume "c \<in> set (completed ts)"
    then have "fst c \<in> set ts" using set_completed [of "fst c" "snd c" ts] by simp
    with Cons.prems show "number t < number (fst c)" by auto
  qed
  show ?case using tl lt by (auto split: option.splits)
qed

lemma best_of_mem: "best_of d b cs \<in> set (b # cs)"
proof (induction cs arbitrary: b)
  case Nil
  show ?case by simp
next
  case (Cons c cs)
  have "best_of d (if better d (snd c) (snd b) then c else b) cs
          \<in> set ((if better d (snd c) (snd b) then c else b) # cs)"
    by (rule Cons.IH)
  then show ?case by (auto split: if_splits)
qed

lemma better_trans_not:
  "\<not> better d x r \<Longrightarrow> better d x y \<Longrightarrow> \<not> better d y r"
  by (cases d) auto

lemma best_of_not_worse_incumbent: "\<not> better d (snd b) (snd (best_of d b cs))"
proof (induction cs arbitrary: b)
  case Nil
  show ?case by (cases d) simp_all
next
  case (Cons c cs)
  show ?case
  proof (cases "better d (snd c) (snd b)")
    case True
    have "\<not> better d (snd c) (snd (best_of d c cs))" by (rule Cons.IH)
    then have "\<not> better d (snd b) (snd (best_of d c cs))"
      using True by (rule better_trans_not)
    with True show ?thesis by simp
  next
    case False
    then show ?thesis using Cons.IH [of b] by simp
  qed
qed

lemma better_chain:
  "\<not> better d y r \<Longrightarrow> \<not> better d x y \<Longrightarrow> \<not> better d x r"
  by (cases d) auto

lemma best_of_optimal:
  "x \<in> set (b # cs) \<Longrightarrow> \<not> better d (snd x) (snd (best_of d b cs))"
proof (induction cs arbitrary: b)
  case Nil
  then show ?case by (cases d) simp_all
next
  case (Cons c cs)
  let ?b' = "if better d (snd c) (snd b) then c else b"
  have r: "best_of d b (c # cs) = best_of d ?b' cs" by simp
  from Cons.prems consider "x = b" | "x = c" | "x \<in> set cs" by auto
  then show ?case
  proof cases
    case 1
    then show ?thesis unfolding r using best_of_not_worse_incumbent [of d b "c # cs"] by simp
  next
    case 2
    show ?thesis
    proof (cases "better d (snd c) (snd b)")
      case True
      then show ?thesis unfolding r 2 using best_of_not_worse_incumbent [of d c cs] by simp
    next
      case False
      have "\<not> better d (snd b) (snd (best_of d b cs))" by (rule best_of_not_worse_incumbent)
      then have "\<not> better d (snd c) (snd (best_of d b cs))" using False by (rule better_chain)
      with False show ?thesis unfolding 2 by simp
    qed
  next
    case 3
    then have "x \<in> set (?b' # cs)" by simp
    then show ?thesis unfolding r by (rule Cons.IH)
  qed
qed

lemma not_better_antisym: "\<not> better d x y \<Longrightarrow> \<not> better d y x \<Longrightarrow> x = y"
  by (cases d) auto

lemma best_of_earliest:
  "sorted_wrt (<) (map (\<lambda>c. number (fst c)) (b # cs)) \<Longrightarrow> x \<in> set (b # cs) \<Longrightarrow>
     snd x = snd (best_of d b cs) \<Longrightarrow> number (fst (best_of d b cs)) \<le> number (fst x)"
proof (induction cs arbitrary: b x)
  case Nil
  then show ?case by simp
next
  case (Cons c cs)
  let ?b' = "if better d (snd c) (snd b) then c else b"
  let ?r = "best_of d ?b' cs"
  have r: "best_of d b (c # cs) = ?r" by simp
  have bc: "number (fst b) < number (fst c)" using Cons.prems(1) by simp
  have sorted': "sorted_wrt (<) (map (\<lambda>c. number (fst c)) (?b' # cs))"
    using Cons.prems(1) by auto
  have eq: "snd x = snd ?r" using Cons.prems(3) by simp
  have ih: "\<And>y. y \<in> set (?b' # cs) \<Longrightarrow> snd y = snd ?r \<Longrightarrow> number (fst ?r) \<le> number (fst y)"
    by (rule Cons.IH [OF sorted'])
  show ?case
  proof (cases "x \<in> set (?b' # cs)")
    case True
    then show ?thesis unfolding r using eq by (rule ih)
  next
    case False
    show ?thesis
    proof (cases "better d (snd c) (snd b)")
      case True
      with False Cons.prems(2) have xb: "x = b" by auto
      have "\<not> better d (snd c) (snd ?r)"
        using best_of_optimal [of c ?b' cs d] True by simp
      then have "\<not> better d (snd b) (snd ?r) \<Longrightarrow> snd b \<noteq> snd ?r"
        using True by (cases d) auto
      moreover have "\<not> better d (snd b) (snd ?r)"
        using best_of_not_worse_incumbent [of d b "c # cs"] by simp
      ultimately show ?thesis using eq xb by simp
    next
      case nb: False
      with False Cons.prems(2) have xc: "x = c" by auto
      have b': "?b' = b" using nb by simp
      have "\<not> better d (snd b) (snd ?r)"
        using best_of_optimal [of b ?b' cs d] nb by simp
      moreover have "\<not> better d (snd ?r) (snd b)"
        using nb eq xc by simp
      ultimately have "snd b = snd ?r" by (rule not_better_antisym)
      moreover have "b \<in> set (?b' # cs)" using nb by simp
      ultimately have "number (fst ?r) \<le> number (fst b)" by (rule ih [rotated])
      with bc show ?thesis unfolding r xc by simp
    qed
  qed
qed

lemma mem_completed:
  "c \<in> set (completed ts) \<longleftrightarrow>
     fst c \<in> set ts \<and> state (fst c) = COMPLETE \<and> final_value (fst c) = Some (snd c)"
  using set_completed [of "fst c" "snd c" ts] by simp

lemma best_InrD:
  assumes "best s = Inr b"
  obtains c cs where "completed (trials s) = c # cs"
    and "b = fst (best_of (study_direction s) c cs)"
  using assms by (cases "completed (trials s)") (simp_all add: best_def)

lemma no_complete_no_best:
  assumes "\<forall>t \<in> set (trials s). state t \<noteq> COMPLETE"
  shows "best s = Inl NoCompletedTrialError"
proof (cases "completed (trials s)")
  case Nil
  then show ?thesis by (simp add: best_def)
next
  case (Cons c cs)
  then have "c \<in> set (completed (trials s))" by simp
  then have "fst c \<in> set (trials s) \<and> state (fst c) = COMPLETE"
    by (simp add: mem_completed)
  with assms show ?thesis by blast
qed

lemma best_properties:
  assumes ids: "sorted_wrt (<) (map number (trials s))"
      and b: "best s = Inr b"
  shows "b \<in> set (trials s)" and "state b = COMPLETE"
    and "\<exists>v. final_value b = Some v \<and>
           (\<forall>u \<in> set (trials s). \<forall>x. state u = COMPLETE \<longrightarrow> final_value u = Some x \<longrightarrow>
              \<not> better (study_direction s) x v \<and> (x = v \<longrightarrow> number b \<le> number u))"
proof -
  from b obtain c cs where cc: "completed (trials s) = c # cs"
    and bb: "b = fst (best_of (study_direction s) c cs)"
    by (rule best_InrD)
  let ?r = "best_of (study_direction s) c cs"
  have "?r \<in> set (c # cs)" by (rule best_of_mem)
  then have "?r \<in> set (completed (trials s))" by (simp add: cc)
  then have r: "fst ?r \<in> set (trials s)" "state (fst ?r) = COMPLETE"
    "final_value (fst ?r) = Some (snd ?r)"
    by (simp_all add: mem_completed)
  from r bb show "b \<in> set (trials s)" and "state b = COMPLETE" by simp_all
  have srt: "sorted_wrt (<) (map (\<lambda>c. number (fst c)) (c # cs))"
    using completed_sorted [OF ids] by (simp add: cc)
  have "\<forall>u \<in> set (trials s). \<forall>x. state u = COMPLETE \<longrightarrow> final_value u = Some x \<longrightarrow>
          \<not> better (study_direction s) x (snd ?r) \<and> (x = snd ?r \<longrightarrow> number b \<le> number u)"
  proof (intro ballI allI impI)
    fix u x assume u: "u \<in> set (trials s)" "state u = COMPLETE" "final_value u = Some x"
    then have "(u, x) \<in> set (completed (trials s))" by (simp add: set_completed)
    then have mem: "(u, x) \<in> set (c # cs)" by (simp add: cc)
    have opt: "\<not> better (study_direction s) (snd (u, x)) (snd ?r)"
      using mem by (rule best_of_optimal)
    have tie: "x = snd ?r \<Longrightarrow> number b \<le> number u"
    proof -
      assume "x = snd ?r"
      then have "snd (u, x) = snd ?r" by simp
      with srt mem have "number (fst ?r) \<le> number (fst (u, x))" by (rule best_of_earliest)
      then show ?thesis by (simp add: bb)
    qed
    from opt tie
    show "\<not> better (study_direction s) x (snd ?r) \<and> (x = snd ?r \<longrightarrow> number b \<le> number u)"
      by simp
  qed
  with r(3) bb
  show "\<exists>v. final_value b = Some v \<and>
           (\<forall>u \<in> set (trials s). \<forall>x. state u = COMPLETE \<longrightarrow> final_value u = Some x \<longrightarrow>
              \<not> better (study_direction s) x v \<and> (x = v \<longrightarrow> number b \<le> number u))"
    by simp
qed

lemma join_concat: "join sep (x # xs) = x @ concat (map (\<lambda>y. sep @ y) xs)"
  by (induction xs arbitrary: x) simp_all

lemma join_key_values:
  "join '' '' (map (key_value L) ps) =
     (case ps of
        [] \<Rightarrow> []
      | p # qs \<Rightarrow>
          fst p @ ''='' @ py_format (py_repr L) (snd p) @
          concat (map (\<lambda>q. '' '' @ fst q @ ''='' @ py_format (py_repr L) (snd q)) qs))"
proof (cases ps)
  case Nil
  then show ?thesis by simp
next
  case (Cons p qs)
  have "join '' '' (map (key_value L) (p # qs)) =
          key_value L p @ concat (map (\<lambda>y. '' '' @ y) (map (key_value L) qs))"
    by (simp add: join_concat)
  then show ?thesis by (simp add: Cons key_value_def comp_def)
qed






lemma makedirs_empty_path: "makedirs_exist_ok f [] = Inl (FileNotFoundError [])"
  by (subst makedirs_exist_ok.simps)
    (simp add: split_twice_def path_split_def mkdir_exist_ok_def mkdir_def isdir_def)

lemma makedirs_under_a_file:
  "makedirs_exist_ok [''f'' \<mapsto> File c] ''f/out'' = Inl (NotADirectoryError ''f/out'')"
  by (subst makedirs_exist_ok.simps)
    (simp add: split_twice_def path_split_def rstrip_slashes_def mkdir_exist_ok_def mkdir_def
      path_exists_def isdir_def)



section \<open>The claims\<close>

text \<open>
  Claim C1. For a persisted study, \<^verbatim>\<open>export_hyperparameters\<close> prints the parameters of
  \<open>best\<close>, all of them and in their order, each as its key, an equals sign and its
  formatted value, with one space between two pairs; an error of \<open>best\<close> is the error
  of the export. With no COMPLETE trial that error is \<^verbatim>\<open>NoCompletedTrialError\<close>.
  The best trial is a trial of the study in state COMPLETE (so never a FAILED one); no
  COMPLETE trial has a value better for the study's direction, and among the COMPLETE
  trials with the same value it has the smallest id. The ids of a study increase in
  creation order (section 3), which is the second hypothesis.
\<close>

theorem export_prints_best_params:
  assumes st: "store w (url, n) = Some s"
      and ids: "sorted_wrt (<) (map number (trials s))"
  shows "export_hyperparameters L (Some n) url w =
           (case best s of
              Inl e \<Rightarrow> Inl e
            | Inr b \<Rightarrow>
                Inr (case params b of
                       [] \<Rightarrow> []
                     | p # ps \<Rightarrow>
                         fst p @ ''='' @ py_format (py_repr L) (snd p) @
                         concat (map (\<lambda>q. '' '' @ fst q @ ''='' @ py_format (py_repr L) (snd q))
                                   ps))) \<and>
         ((\<forall>t \<in> set (trials s). state t \<noteq> COMPLETE) \<longrightarrow>
            export_hyperparameters L (Some n) url w = Inl NoCompletedTrialError) \<and>
         (\<forall>b. best s = Inr b \<longrightarrow>
            b \<in> set (trials s) \<and> state b = COMPLETE \<and> state b \<noteq> FAILED \<and>
            (\<exists>v. final_value b = Some v \<and>
               (\<forall>u \<in> set (trials s). \<forall>x. state u = COMPLETE \<longrightarrow> final_value u = Some x \<longrightarrow>
                  \<not> better (study_direction s) x v \<and> (x = v \<longrightarrow> number b \<le> number u))))"
proof (intro conjI allI impI)
  show ex: "export_hyperparameters L (Some n) url w =
           (case best s of
              Inl e \<Rightarrow> Inl e
            | Inr b \<Rightarrow>
                Inr (case params b of
                       [] \<Rightarrow> []
                     | p # ps \<Rightarrow>
                         fst p @ ''='' @ py_format (py_repr L) (snd p) @
                         concat (map (\<lambda>q. '' '' @ fst q @ ''='' @ py_format (py_repr L) (snd q))
                                   ps)))"
    by (simp add: export_hyperparameters_def load_study_def st bind_res_def join_key_values
        split: sum.splits)
  assume "\<forall>t \<in> set (trials s). state t \<noteq> COMPLETE"
  then have "best s = Inl NoCompletedTrialError" by (rule no_complete_no_best)
  with ex show "export_hyperparameters L (Some n) url w = Inl NoCompletedTrialError" by simp
next
  fix b assume b: "best s = Inr b"
  from ids b show "b \<in> set (trials s)" by (rule best_properties(1))
  from ids b show c: "state b = COMPLETE" by (rule best_properties(2))
  then show "state b \<noteq> FAILED" by simp
  from ids b show "\<exists>v. final_value b = Some v \<and>
      (\<forall>u \<in> set (trials s). \<forall>x. state u = COMPLETE \<longrightarrow> final_value u = Some x \<longrightarrow>
         \<not> better (study_direction s) x v \<and> (x = v \<longrightarrow> number b \<le> number u))"
    by (rule best_properties(3))
qed

theorem export_prints_best_params_witness:
  "store ((example_world (JList [lr_entry]))\<lparr>store := [(''db'', ''demo'') \<mapsto> tied_study]\<rparr>)
      (''db'', ''demo'') = Some tied_study \<and>
   sorted_wrt (<) (map number (trials tied_study)) \<and>
   best tied_study =
     Inr \<lparr>number = 1,
          params = [(''lr'', JFloat ''0.03''), (''dropout'', JFloat ''0.5''),
                    (''optimizer'', JStr ''adam'')],
          intermediate_values = [], final_value = Some 3, state = COMPLETE\<rparr> \<and>
   export_hyperparameters example_lib (Some ''demo'') ''db''
      ((example_world (JList [lr_entry]))\<lparr>store := [(''db'', ''demo'') \<mapsto> tied_study]\<rparr>)
     = Inr ''lr=0.03 dropout=0.5 optimizer=adam''"
proof -
  let ?w = "(example_world (JList [lr_entry]))\<lparr>store := [(''db'', ''demo'') \<mapsto> tied_study]\<rparr>"
  have st: "store ?w (''db'', ''demo'') = Some tied_study" by simp
  have ids: "sorted_wrt (<) (map number (trials tied_study))" by (simp add: tied_study_def)
  have b: "best tied_study =
     Inr \<lparr>number = 1,
          params = [(''lr'', JFloat ''0.03''), (''dropout'', JFloat ''0.5''),
                    (''optimizer'', JStr ''adam'')],
          intermediate_values = [], final_value = Some 3, state = COMPLETE\<rparr>"
    by (simp add: best_def tied_study_def)
  from export_prints_best_params [OF st ids, where L = example_lib]
  have "export_hyperparameters example_lib (Some ''demo'') ''db'' ?w =
           (case best tied_study of
              Inl e \<Rightarrow> Inl e
            | Inr b \<Rightarrow>
                Inr (case params b of
                       [] \<Rightarrow> []
                     | p # ps \<Rightarrow>
                         fst p @ ''='' @ py_format (py_repr example_lib) (snd p) @
                         concat (map (\<lambda>q. '' '' @ fst q @ ''='' @
                                        py_format (py_repr example_lib) (snd q)) ps)))"
    by (rule conjunct1)
  then have "export_hyperparameters example_lib (Some ''demo'') ''db'' ?w
               = Inr ''lr=0.03 dropout=0.5 optimizer=adam''"
    by (simp add: b example_lib_def)
  with st ids b show ?thesis by simp
qed






text \<open>
  Claim C4, where the code departs from it. The help text of \<^verbatim>\<open>--n-trials\<close> says that
  without the option as many trials run as possible, but its default is 50: with
  neither \<^verbatim>\<open>--n-trials\<close> nor \<^verbatim>\<open>--timeout\<close> on the command line the loop is given the
  budget of 50 trials and no timeout, and with that budget it returns, whatever the
  objective does.
\<close>

theorem default_budget_is_fifty_trials:
  "n_trials (add_subparser (c\<lparr>cli_n_trials := None, cli_timeout := None\<rparr>)) = Some 50 \<and>
   timeout (add_subparser (c\<lparr>cli_n_trials := None, cli_timeout := None\<rparr>)) = None \<and>
   (\<exists>r. optimize L obj (n_trials (add_subparser (c\<lparr>cli_n_trials := None, cli_timeout := None\<rparr>)))
           (timeout (add_subparser (c\<lparr>cli_n_trials := None, cli_timeout := None\<rparr>)))
           start 0 s w = Some r)"
  using optimize_terminates [of L obj 50 None start 0 s w]
  by (simp add: add_subparser_def)

theorem default_budget_is_fifty_trials_witness:
  "n_trials example_args = Some 1 \<and>
   n_trials (add_subparser
      \<lparr> cli_param_path = ''model.jsonnet'', cli_hparam_path = ''hparams.json'',
        cli_optuna_param_path = None, cli_serialization_dir = ''out'',
        cli_skip_if_exists = False, cli_direction = None, cli_n_trials = None,
        cli_timeout = None, cli_study_name = None, cli_storage = None,
        cli_metrics = None \<rparr>) = Some 50"
  using default_budget_is_fifty_trials
    [of "\<lparr> cli_param_path = ''model.jsonnet'', cli_hparam_path = ''hparams.json'',
        cli_optuna_param_path = None, cli_serialization_dir = ''out'',
        cli_skip_if_exists = False, cli_direction = None, cli_n_trials = None,
        cli_timeout = None, cli_study_name = None, cli_storage = None,
        cli_metrics = None \<rparr>"]
  by (simp add: example_args_def add_subparser_def)

text \<open>
  Claim C5. When the storage already holds a study of the given name,
  \<^verbatim>\<open>create_study\<close> fails with \<^verbatim>\<open>DuplicateStudyError\<close> if \<^verbatim>\<open>load_if_exists\<close> is false,
  and returns the stored study with the given sampler and pruner attached if it is
  true. \<^verbatim>\<open>optimize_hyperparameters\<close> passes \<^verbatim>\<open>--skip-if-exists\<close> as that policy: without
  the flag the run ends with the error before any trial, with it the loop runs on the
  loaded study. The flag is false unless it is given.
\<close>

theorem study_name_collision:
  assumes mk: "makedirs_exist_ok (fs w) (serialization_dir a) = Inr f1"
      and cfg: "load_optuna_config f1 (optuna_param_path a) = Inr optuna_config"
      and pr: "make_pruner L optuna_config = Inr pr"
      and sm: "make_sampler L optuna_config = Inr sm"
      and nm: "study_name a = Some n"
      and ex: "store w (storage a, n) = Some s0"
  shows "create_study L (Some n) d (storage a) pr sm False w = (Inl (DuplicateStudyError n), w) \<and>
         create_study L (Some n) d (storage a) pr sm True w
           = (Inr (s0\<lparr>sampler := sm, pruner := pr\<rparr>), w) \<and>
         (\<not> skip_if_exists a \<longrightarrow>
            optimize_hyperparameters L a w = Some (Inl (DuplicateStudyError n), w\<lparr>fs := f1\<rparr>)) \<and>
         (skip_if_exists a \<longrightarrow>
            optimize_hyperparameters L a w =
              (case optimize L (objective L a) (n_trials a) (timeout a) (clock w) 0
                      (s0\<lparr>sampler := sm, pruner := pr\<rparr>) (w\<lparr>fs := f1\<rparr>) of
                 None \<Rightarrow> None
               | Some (r, s', w3) \<Rightarrow> Some (r, save (storage a) s' w3))) \<and>
         skip_if_exists (add_subparser c) = cli_skip_if_exists c"
  using ex by (simp add: create_study_def optimize_hyperparameters_def mk cfg pr sm nm add_subparser_def Let_def)

theorem study_name_collision_witness:
  "store ((example_world (JList [lr_entry]))
            \<lparr>store := [(''sqlite:///allenopt.db'', ''demo'') \<mapsto> tied_study]\<rparr>)
      (storage example_args, ''demo'') = Some tied_study \<and>
   \<not> skip_if_exists example_args \<and>
   optimize_hyperparameters example_lib example_args
      ((example_world (JList [lr_entry]))
         \<lparr>store := [(''sqlite:///allenopt.db'', ''demo'') \<mapsto> tied_study]\<rparr>)
     = Some (Inl (DuplicateStudyError ''demo''),
         (example_world (JList [lr_entry]))
           \<lparr>store := [(''sqlite:///allenopt.db'', ''demo'') \<mapsto> tied_study],
            fs := [''hparams.json'' \<mapsto> File (Some (JList [lr_entry])), ''out'' \<mapsto> Dir]\<rparr>)"
proof -
  let ?w = "(example_world (JList [lr_entry]))
              \<lparr>store := [(''sqlite:///allenopt.db'', ''demo'') \<mapsto> tied_study]\<rparr>"
  let ?f1 = "[''hparams.json'' \<mapsto> File (Some (JList [lr_entry])), ''out'' \<mapsto> Dir]"
  have mk: "makedirs_exist_ok (fs ?w) (serialization_dir example_args) = Inr ?f1"
    by (simp add: makedirs_plain_name example_world_def example_args_def add_subparser_def)
  have cfg: "load_optuna_config ?f1 (optuna_param_path example_args) = Inr (JObj [])"
    by (simp add: load_optuna_config_def isfile_def example_args_def add_subparser_def)
  have pr: "make_pruner example_lib (JObj []) = Inr None" by (rule make_pruner_empty)
  have sm: "make_sampler example_lib (JObj []) = Inr None" by (rule make_sampler_empty)
  have nm: "study_name example_args = Some ''demo''"
    by (simp add: example_args_def add_subparser_def)
  have ex: "store ?w (storage example_args, ''demo'') = Some tied_study"
    by (simp add: example_args_def add_subparser_def)
  have flag: "\<not> skip_if_exists example_args"
    by (simp add: example_args_def add_subparser_def)
  from study_name_collision [OF mk cfg pr sm nm ex] flag
  have "optimize_hyperparameters example_lib example_args ?w
          = Some (Inl (DuplicateStudyError ''demo''), ?w\<lparr>fs := ?f1\<rparr>)"
    by blast
  with ex flag show ?thesis by simp
qed

text \<open>
  Claim C6. The loop of lines 43 to 46 completes exactly when every entry of the
  descriptor list can be processed, in list order, by the suggestion method its type
  names, called with its keyword mapping as it stands, each call starting from the
  trial the one before left; the trial it ends with is the one the last call left. So
  no entry is skipped, and an entry that cannot be processed is not passed over: the
  loop raises. If the library's suggestion methods record a value under the name they
  are given and keep the earlier ones, the resulting trial has a value for every listed
  parameter.
\<close>

theorem every_entry_suggested_in_order:
  "(suggest_all L hs t = Inr t' \<longleftrightarrow> processed L hs t t') \<and>
   (records_names L \<longrightarrow> suggest_all L hs t = Inr t' \<longrightarrow>
      (\<forall>h \<in> set hs. \<exists>kwargs nm.
         getitem h ''keyword'' = Inr (JObj kwargs) \<and>
         map_of kwargs ''name'' = Some (JStr nm) \<and>
         nm \<in> fst ` set (params t')))"
proof (intro conjI impI ballI iffI)
  assume "suggest_all L hs t = Inr t'"
  then show "processed L hs t t'" by (rule suggest_all_processed)
next
  assume "processed L hs t t'"
  then show "suggest_all L hs t = Inr t'" by (rule processed_suggest_all)
next
  fix h assume r: "records_names L" and ok: "suggest_all L hs t = Inr t'" and h: "h \<in> set hs"
  from r ok h show "\<exists>kwargs nm. getitem h ''keyword'' = Inr (JObj kwargs) \<and>
      map_of kwargs ''name'' = Some (JStr nm) \<and> nm \<in> fst ` set (params t')"
    by (rule suggest_all_names)
qed

theorem every_entry_suggested_in_order_witness:
  "suggest_all example_lib [lr_entry, dropout_entry, momentum_entry] (new_trial 0)
     = Inr ((new_trial 0)\<lparr>params := [(''lr'', JFloat ''0.001''), (''dropout'', JFloat ''0.1''),
                                     (''momentum'', JFloat ''0.9'')]\<rparr>) \<and>
   suggest_all example_lib [momentum_entry, lr_entry, dropout_entry] (new_trial 0)
     = Inr ((new_trial 0)\<lparr>params := [(''momentum'', JFloat ''0.9''), (''lr'', JFloat ''0.001''),
                                     (''dropout'', JFloat ''0.1'')]\<rparr>) \<and>
   records_names example_lib \<and>
   processed example_lib [lr_entry, dropout_entry, momentum_entry] (new_trial 0)
     ((new_trial 0)\<lparr>params := [(''lr'', JFloat ''0.001''), (''dropout'', JFloat ''0.1''),
                               (''momentum'', JFloat ''0.9'')]\<rparr>) \<and>
   ''momentum'' \<in> fst ` set (params
     ((new_trial 0)\<lparr>params := [(''lr'', JFloat ''0.001''), (''dropout'', JFloat ''0.1''),
                               (''momentum'', JFloat ''0.9'')]\<rparr>))"
proof -
  let ?hs = "[lr_entry, dropout_entry, momentum_entry]"
  let ?t' = "(new_trial 0)\<lparr>params := [(''lr'', JFloat ''0.001''), (''dropout'', JFloat ''0.1''),
                                     (''momentum'', JFloat ''0.9'')]\<rparr>"
  have ok: "suggest_all example_lib ?hs (new_trial 0) = Inr ?t'"
    by (simp add: lr_entry_def dropout_entry_def momentum_entry_def suggest_one_def bind_res_def
        example_lib_def suggest_low_def new_trial_def)
  have other: "suggest_all example_lib [momentum_entry, lr_entry, dropout_entry] (new_trial 0)
     = Inr ((new_trial 0)\<lparr>params := [(''momentum'', JFloat ''0.9''), (''lr'', JFloat ''0.001''),
                                     (''dropout'', JFloat ''0.1'')]\<rparr>)"
    by (simp add: lr_entry_def dropout_entry_def momentum_entry_def suggest_one_def bind_res_def
        example_lib_def suggest_low_def new_trial_def)
  have rn: "records_names example_lib"
    by (auto simp: records_names_def example_lib_def suggest_low_def
        split: if_splits option.splits json.splits)
  note inst = every_entry_suggested_in_order [of example_lib ?hs "new_trial 0" ?t']
  from inst ok have p: "processed example_lib ?hs (new_trial 0) ?t'" by blast
  have m: "momentum_entry \<in> set ?hs" by simp
  from inst rn ok m obtain kwargs nm where
    k: "getitem momentum_entry ''keyword'' = Inr (JObj kwargs)"
    and n: "map_of kwargs ''name'' = Some (JStr nm)" and mem: "nm \<in> fst ` set (params ?t')"
    by blast
  from k n have "nm = ''momentum''" by (auto simp: momentum_entry_def)
  with mem have "''momentum'' \<in> fst ` set (params ?t')" by simp
  with ok other rn p show ?thesis by simp
qed

text \<open>
  Claim C9. When \<^verbatim>\<open>--optuna-param-path\<close> is not given, or names something that is not
  a regular file, the configuration is the empty dict and no error is raised: no
  pruner and no sampler are constructed, and \<^verbatim>\<open>create_study\<close> is called with
  \<^verbatim>\<open>pruner=None\<close> and \<^verbatim>\<open>sampler=None\<close>. The run goes on as if no path had been given.
\<close>

theorem missing_config_ignored:
  assumes path: "optuna_param_path a = None \<or> (\<exists>p. optuna_param_path a = Some p \<and> \<not> isfile (fs w) p)"
      and mk: "makedirs_exist_ok (fs w) (serialization_dir a) = Inr f1"
  shows "load_optuna_config f1 (optuna_param_path a) = Inr (JObj []) \<and>
         make_pruner L (JObj []) = Inr None \<and>
         make_sampler L (JObj []) = Inr None \<and>
         optimize_hyperparameters L a w =
           (case create_study L (study_name a) (direction a) (storage a) None None
                   (skip_if_exists a) (w\<lparr>fs := f1\<rparr>) of
              (Inl e, w2) \<Rightarrow> Some (Inl e, w2)
            | (Inr s, w2) \<Rightarrow>
                (case optimize L (objective L a) (n_trials a) (timeout a) (clock w2) 0 s w2 of
                   None \<Rightarrow> None
                 | Some (r, s', w3) \<Rightarrow> Some (r, save (storage a) s' w3)))"
proof -
  have cfg: "load_optuna_config f1 (optuna_param_path a) = Inr (JObj [])"
    using path isfile_makedirs [OF mk] by (auto simp: load_optuna_config_def)
  show ?thesis
    by (simp add: cfg make_pruner_empty make_sampler_empty optimize_hyperparameters_def mk)
qed

theorem missing_config_ignored_witness:
  "optuna_param_path example_args = Some ''optuna.json'' \<and>
   \<not> isfile (fs (example_world (JList [lr_entry]))) ''optuna.json'' \<and>
   makedirs_exist_ok (fs (example_world (JList [lr_entry]))) (serialization_dir example_args)
     = Inr [''hparams.json'' \<mapsto> File (Some (JList [lr_entry])), ''out'' \<mapsto> Dir] \<and>
   load_optuna_config [''hparams.json'' \<mapsto> File (Some (JList [lr_entry])), ''out'' \<mapsto> Dir]
      (optuna_param_path example_args) = Inr (JObj [])"
proof -
  let ?w = "example_world (JList [lr_entry])"
  let ?f1 = "[''hparams.json'' \<mapsto> File (Some (JList [lr_entry])), ''out'' \<mapsto> Dir]"
  have p: "optuna_param_path example_args = Some ''optuna.json''"
    by (simp add: example_args_def add_subparser_def)
  have nf: "\<not> isfile (fs ?w) ''optuna.json''"
    by (simp add: isfile_def example_world_def)
  have hyp: "optuna_param_path example_args = None \<or>
             (\<exists>p. optuna_param_path example_args = Some p \<and> \<not> isfile (fs ?w) p)"
    using p nf by simp
  have mk: "makedirs_exist_ok (fs ?w) (serialization_dir example_args) = Inr ?f1"
    by (simp add: makedirs_plain_name example_world_def example_args_def add_subparser_def)
  from missing_config_ignored [OF hyp mk, where L = example_lib]
  have "load_optuna_config ?f1 (optuna_param_path example_args) = Inr (JObj [])"
    by (rule conjunct1)
  with p nf mk show ?thesis by simp
qed

text \<open>
  Claim C10. With both sections present and naming known classes, the pruner class is
  called with no positional argument and the items of its \<^verbatim>\<open>keyword\<close> mapping as
  keyword arguments, while the sampler class is called with its \<^verbatim>\<open>keyword\<close> value as
  one positional argument and no keyword argument.
\<close>

theorem constructor_arguments:
  assumes "getitem cfg ''pruner'' = Inr psec"
      and "getitem psec ''type'' = Inr (JStr pn)"
      and "pruners L pn = Some pruner_class"
      and "getitem psec ''keyword'' = Inr (JObj pkw)"
      and "getitem cfg ''sampler'' = Inr ssec"
      and "getitem ssec ''type'' = Inr (JStr sn)"
      and "samplers L sn = Some sampler_class"
      and "getitem ssec ''keyword'' = Inr skw"
  shows "make_pruner L cfg =
           (case pruner_class [] pkw of Inl e \<Rightarrow> Inl e | Inr p \<Rightarrow> Inr (Some p)) \<and>
         make_sampler L cfg =
           (case sampler_class [skw] [] of Inl e \<Rightarrow> Inl e | Inr s \<Rightarrow> Inr (Some s))"
proof -
  obtain kvs where c: "cfg = JObj kvs"
    using assms(1) by (cases cfg) auto
  have "py_in ''pruner'' cfg = Inr True" "py_in ''sampler'' cfg = Inr True"
    using assms(1,5) by (auto simp: c split: option.splits)
  then show ?thesis
    using assms by (simp add: make_pruner_def make_sampler_def bind_res_def split: sum.splits)
qed

theorem constructor_arguments_witness:
  "make_pruner example_lib both_sections
     = Inr (Some (''MedianPruner'', [], [(''n_startup_trials'', JInt 5)])) \<and>
   make_sampler example_lib both_sections
     = Inr (Some (''RandomSampler'', [JObj [(''seed'', JInt 1)]], []))"
proof -
  have a: "getitem both_sections ''pruner''
             = Inr (JObj [(''type'', JStr ''MedianPruner''),
                          (''keyword'', JObj [(''n_startup_trials'', JInt 5)])])"
    by (simp add: both_sections_def)
  have b: "getitem (JObj [(''type'', JStr ''MedianPruner''),
                          (''keyword'', JObj [(''n_startup_trials'', JInt 5)])]) ''type''
             = Inr (JStr ''MedianPruner'')"
    by simp
  have c: "pruners example_lib ''MedianPruner'' = Some (\<lambda>a k. Inr (''MedianPruner'', a, k))"
    by (simp add: example_lib_def)
  have d: "getitem (JObj [(''type'', JStr ''MedianPruner''),
                          (''keyword'', JObj [(''n_startup_trials'', JInt 5)])]) ''keyword''
             = Inr (JObj [(''n_startup_trials'', JInt 5)])"
    by simp
  have e: "getitem both_sections ''sampler''
             = Inr (JObj [(''type'', JStr ''RandomSampler''),
                          (''keyword'', JObj [(''seed'', JInt 1)])])"
    by (simp add: both_sections_def)
  have f: "getitem (JObj [(''type'', JStr ''RandomSampler''),
                          (''keyword'', JObj [(''seed'', JInt 1)])]) ''type''
             = Inr (JStr ''RandomSampler'')"
    by simp
  have g: "samplers example_lib ''RandomSampler'' = Some (\<lambda>a k. Inr (''RandomSampler'', a, k))"
    by (simp add: example_lib_def)
  have h: "getitem (JObj [(''type'', JStr ''RandomSampler''),
                          (''keyword'', JObj [(''seed'', JInt 1)])]) ''keyword''
             = Inr (JObj [(''seed'', JInt 1)])"
    by simp
  from constructor_arguments [OF a b c d e f g h] show ?thesis by simp
qed

end
